theory Spec2Isabelle
  imports Main
begin

section \<open>VisionEye: data model\<close>

text \<open>
  Shallow embedding of \<^verbatim>\<open>ultralytics/solutions/vision_eye.py\<close>. The class
  \<^verbatim>\<open>VisionEye\<close> extends \<^verbatim>\<open>BaseSolution\<close>; the attributes it inherits and
  reads are the fields of \<open>base_solution\<close>, and the one attribute it adds is
  \<open>vision_point\<close>. Boxes are opaque to this class (they are only handed on to the
  drawing calls), so their type is a parameter.
\<close>

type_synonym point = "int \<times> int"
type_synonym color = "int \<times> int \<times> int"
type_synonym addr = nat

datatype exn = KeyError int | Raised string

record 'box base_solution =
  line_width :: int
  verbose :: bool
  names :: "int \<rightharpoonup> string"
  clss :: "int list"
  track_ids :: "int list"
  boxes :: "'box list"

record 'box vision_eye = "'box base_solution" +
  vision_point :: point

text \<open>\<^verbatim>\<open>SolutionResults(plot_im=..., total_tracks=..., verbose=...)\<close>: the frame is held by
  reference.\<close>

record solution_results =
  plot_im :: addr
  total_tracks :: nat
  res_verbose :: bool

text \<open>\<^verbatim>\<open>SolutionAnnotator(plot_im, self.line_width)\<close>: a handle on the frame buffer it
  was given (by reference, not a copy of it), with the stroke width.\<close>

record annotator =
  im :: addr
  lw :: int

text \<open>The calls that reach the collaborators, in the order they are made. A draw call
  records the stroke width of the annotator it is made on.\<close>

datatype 'box call =
    is_extract_tracks: ExtractTracks addr
  | is_box_label: BoxLabel int 'box string color
  | is_visioneye: VisionEyeLink int 'box point
  | is_display_output: DisplayOutput addr

text \<open>
  Modelled from the spec: the collaborators of \<^verbatim>\<open>mapping\<close> are not part of the file
  (the tracker behind \<^verbatim>\<open>BaseSolution.extract_tracks\<close>, the palette \<^verbatim>\<open>colors\<close>, the
  drawing methods of \<^verbatim>\<open>SolutionAnnotator\<close> and \<^verbatim>\<open>BaseSolution.display_output\<close>).
  They are parameters: each may raise, and a drawing call returns the buffer as it
  left it, also when it raises.
\<close>

record ('img, 'box) collaborators =
  track :: "'img \<Rightarrow> exn + (int list \<times> int list \<times> 'box list)"
  colors :: "int \<Rightarrow> bool \<Rightarrow> exn + color"
  draw_box_label :: "int \<Rightarrow> 'img \<Rightarrow> 'box \<Rightarrow> string \<Rightarrow> color \<Rightarrow> (exn + unit) \<times> 'img"
  draw_visioneye :: "int \<Rightarrow> 'img \<Rightarrow> 'box \<Rightarrow> point \<Rightarrow> (exn + unit) \<times> 'img"
  show_im :: "'img \<Rightarrow> exn + unit"

text \<open>The state a call runs in: the object \<^verbatim>\<open>self\<close>, the frame buffers by reference,
  and the calls made so far.\<close>

record ('img, 'box) machine =
  self :: "'box vision_eye"
  heap :: "addr \<Rightarrow> 'img"
  calls :: "'box call list"

section \<open>VisionEye: operations\<close>

text \<open>\<^verbatim>\<open>__init__\<close>: the base class initialises its attributes from the keyword
  arguments (the argument \<open>base\<close> is their result), then the vision point is set.\<close>

definition VisionEye_init :: "'box base_solution \<Rightarrow> 'box vision_eye" where
  "VisionEye_init base =
     \<lparr>line_width = line_width base, verbose = verbose base, names = names base,
      clss = clss base, track_ids = track_ids base, boxes = boxes base,
      vision_point = (20, 20)\<rparr>"

definition set_vision_point :: "point \<Rightarrow> 'box vision_eye \<Rightarrow> 'box vision_eye" where
  "set_vision_point p s = s\<lparr>vision_point := p\<rparr>"

text \<open>Modelled from the spec: \<^verbatim>\<open>BaseSolution.extract_tracks\<close> asks the tracker for the
  tracks of the frame and stores them in \<^verbatim>\<open>self.clss\<close>, \<^verbatim>\<open>self.track_ids\<close> and
  \<^verbatim>\<open>self.boxes\<close>.\<close>

definition extract_tracks ::
  "('img, 'box) collaborators \<Rightarrow> addr \<Rightarrow> ('img, 'box) machine \<Rightarrow> (exn + unit) \<times> ('img, 'box) machine"
where
  "extract_tracks cs im0 m =
     (let m1 = m\<lparr>calls := calls m @ [ExtractTracks im0]\<rparr> in
      case track cs (heap m1 im0) of
        Inl e \<Rightarrow> (Inl e, m1)
      | Inr (cl, ti, bx) \<Rightarrow>
          (Inr (), m1\<lparr>self := (self m1)\<lparr>clss := cl, track_ids := ti, boxes := bx\<rparr>\<rparr>))"

text \<open>Modelled from the spec: the two drawing methods of \<^verbatim>\<open>SolutionAnnotator\<close> draw on
  the buffer the annotator was made for.\<close>

definition box_label ::
  "('img, 'box) collaborators \<Rightarrow> annotator \<Rightarrow> 'box \<Rightarrow> string \<Rightarrow> color \<Rightarrow>
     ('img, 'box) machine \<Rightarrow> (exn + unit) \<times> ('img, 'box) machine"
where
  "box_label cs an box label c m =
     (case draw_box_label cs (lw an) (heap m (im an)) box label c of
        (r, img) \<Rightarrow>
          (r, m\<lparr>heap := (heap m)(im an := img),
                calls := calls m @ [BoxLabel (lw an) box label c]\<rparr>))"

definition visioneye ::
  "('img, 'box) collaborators \<Rightarrow> annotator \<Rightarrow> 'box \<Rightarrow> point \<Rightarrow>
     ('img, 'box) machine \<Rightarrow> (exn + unit) \<times> ('img, 'box) machine"
where
  "visioneye cs an box p m =
     (case draw_visioneye cs (lw an) (heap m (im an)) box p of
        (r, img) \<Rightarrow>
          (r, m\<lparr>heap := (heap m)(im an := img),
                calls := calls m @ [VisionEyeLink (lw an) box p]\<rparr>))"

text \<open>Modelled from the spec: \<^verbatim>\<open>BaseSolution.display_output\<close> shows the frame.\<close>

definition display_output ::
  "('img, 'box) collaborators \<Rightarrow> addr \<Rightarrow> ('img, 'box) machine \<Rightarrow> (exn + unit) \<times> ('img, 'box) machine"
where
  "display_output cs a m =
     (show_im cs (heap m a), m\<lparr>calls := calls m @ [DisplayOutput a]\<rparr>)"

text \<open>The body of the loop of \<^verbatim>\<open>mapping\<close>, for one \<^verbatim>\<open>(cls, t_id, box)\<close>. The arguments
  of \<^verbatim>\<open>box_label\<close> are evaluated left to right: \<^verbatim>\<open>self.names[cls]\<close> (a missing key
  raises), then \<^verbatim>\<open>colors(int(t_id), True)\<close>, where \<^verbatim>\<open>int\<close> leaves an integer identity as
  it is. Then \<^verbatim>\<open>visioneye\<close> is called with the vision point as \<^verbatim>\<open>self\<close> holds it.\<close>

definition annotate_track ::
  "('img, 'box) collaborators \<Rightarrow> annotator \<Rightarrow> int \<times> int \<times> 'box \<Rightarrow>
     ('img, 'box) machine \<Rightarrow> (exn + unit) \<times> ('img, 'box) machine"
where
  "annotate_track cs an x m =
     (case x of (cls, t_id, box) \<Rightarrow>
        (case names (self m) cls of
           None \<Rightarrow> (Inl (KeyError cls), m)
         | Some label \<Rightarrow>
             (case colors cs t_id True of
                Inl e \<Rightarrow> (Inl e, m)
              | Inr c \<Rightarrow>
                  (case box_label cs an box label c m of
                     (Inl e, m1) \<Rightarrow> (Inl e, m1)
                   | (Inr _, m1) \<Rightarrow> visioneye cs an box (vision_point (self m1)) m1))))"

text \<open>The \<^verbatim>\<open>for\<close> loop: an exception leaves it at once.\<close>

fun mapping_loop ::
  "('img, 'box) collaborators \<Rightarrow> annotator \<Rightarrow> (int \<times> int \<times> 'box) list \<Rightarrow>
     ('img, 'box) machine \<Rightarrow> (exn + unit) \<times> ('img, 'box) machine"
where
  "mapping_loop cs an [] m = (Inr (), m)"
| "mapping_loop cs an (x # rest) m =
     (case annotate_track cs an x m of
        (Inl e, m1) \<Rightarrow> (Inl e, m1)
      | (Inr _, m1) \<Rightarrow> mapping_loop cs an rest m1)"

text \<open>\<^verbatim>\<open>zip(self.clss, self.track_ids, self.boxes)\<close> stops at the shortest of the three.\<close>

definition zip3 :: "'a list \<Rightarrow> 'b list \<Rightarrow> 'c list \<Rightarrow> ('a \<times> 'b \<times> 'c) list" where
  "zip3 xs ys zs = zip xs (zip ys zs)"

text \<open>\<^verbatim>\<open>mapping(im0)\<close>: the tracks are extracted, \<^verbatim>\<open>plot_im = im0\<close> names the same
  buffer, every track is annotated, the frame is displayed, and the result is built from
  \<^verbatim>\<open>plot_im\<close>, \<^verbatim>\<open>len(self.track_ids)\<close> and \<^verbatim>\<open>self.verbose\<close>. There is no handler: an
  exception raised on the way is the outcome of the call.\<close>

definition mapping ::
  "('img, 'box) collaborators \<Rightarrow> addr \<Rightarrow> ('img, 'box) machine \<Rightarrow>
     (exn + solution_results) \<times> ('img, 'box) machine"
where
  "mapping cs im0 m =
     (case extract_tracks cs im0 m of
        (Inl e, m1) \<Rightarrow> (Inl e, m1)
      | (Inr _, m1) \<Rightarrow>
          (let plot = im0;
               an = \<lparr>im = plot, lw = line_width (self m1)\<rparr>
           in case mapping_loop cs an
                     (zip3 (clss (self m1)) (track_ids (self m1)) (boxes (self m1))) m1 of
                (Inl e, m2) \<Rightarrow> (Inl e, m2)
              | (Inr _, m2) \<Rightarrow>
                  (case display_output cs plot m2 of
                     (Inl e, m3) \<Rightarrow> (Inl e, m3)
                   | (Inr _, m3) \<Rightarrow>
                       (Inr \<lparr>plot_im = plot,
                             total_tracks = length (track_ids (self m3)),
                             res_verbose = verbose (self m3)\<rparr>, m3))))"

section \<open>Observing a call\<close>

text \<open>The calls that one \<^verbatim>\<open>mapping\<close> adds to the ones made before it.\<close>

definition new_calls ::
  "('img, 'box) collaborators \<Rightarrow> addr \<Rightarrow> ('img, 'box) machine \<Rightarrow> 'box call list" where
  "new_calls cs im0 m = drop (length (calls m)) (calls (snd (mapping cs im0 m)))"

text \<open>The two drawing calls of one pass through the loop body in which nothing raises,
  and what they leave in the buffer.\<close>

definition track_draws ::
  "('img, 'box) collaborators \<Rightarrow> 'box vision_eye \<Rightarrow> int \<Rightarrow> int \<times> int \<times> 'box \<Rightarrow> 'box call list" where
  "track_draws cs s w x =
     (case x of (cls, t_id, box) \<Rightarrow>
        (case names s cls of
           None \<Rightarrow> []
         | Some label \<Rightarrow>
             (case colors cs t_id True of
                Inl e \<Rightarrow> []
              | Inr c \<Rightarrow> [BoxLabel w box label c, VisionEyeLink w box (vision_point s)])))"

definition track_paint ::
  "('img, 'box) collaborators \<Rightarrow> 'box vision_eye \<Rightarrow> int \<Rightarrow> int \<times> int \<times> 'box \<Rightarrow> 'img \<Rightarrow> 'img" where
  "track_paint cs s w x img =
     (case x of (cls, t_id, box) \<Rightarrow>
        (case names s cls of
           None \<Rightarrow> img
         | Some label \<Rightarrow>
             (case colors cs t_id True of
                Inl e \<Rightarrow> img
              | Inr c \<Rightarrow>
                  snd (draw_visioneye cs w (snd (draw_box_label cs w img box label c)) box
                         (vision_point s)))))"

text \<open>A drawing call made with stroke width \<open>w\<close> and, for a vision link, from the
  point \<open>p\<close>.\<close>

definition draw_with :: "int \<Rightarrow> point \<Rightarrow> 'box call \<Rightarrow> bool" where
  "draw_with w p d =
     (case d of
        BoxLabel w' _ _ _ \<Rightarrow> w' = w
      | VisionEyeLink w' _ q \<Rightarrow> w' = w \<and> q = p
      | _ \<Rightarrow> False)"

text \<open>The drawing and display collaborators never raise.\<close>

definition canvas_ok :: "('img, 'box) collaborators \<Rightarrow> bool" where
  "canvas_ok cs \<longleftrightarrow>
     (\<forall>w img b l c. fst (draw_box_label cs w img b l c) = Inr ()) \<and>
     (\<forall>w img b p. fst (draw_visioneye cs w img b p) = Inr ()) \<and>
     (\<forall>img. show_im cs img = Inr ())"

section \<open>A concrete frame\<close>

text \<open>The frame of the end-to-end scenario: two tracks, classes 0 and 1, identities 5
  and 7. The buffer is the list of what was drawn on it.\<close>

type_synonym xyxy = "int \<times> int \<times> int \<times> int"

definition demo_cs :: "(xyxy call list, xyxy) collaborators" where
  "demo_cs =
     \<lparr>track = (\<lambda>img. Inr ([0, 1], [5, 7], [(10, 10, 50, 50), (60, 60, 90, 90)])),
      colors = (\<lambda>i bgr. Inr (i, 0, 255)),
      draw_box_label = (\<lambda>w img b l c. (Inr (), img @ [BoxLabel w b l c])),
      draw_visioneye = (\<lambda>w img b p. (Inr (), img @ [VisionEyeLink w b p])),
      show_im = (\<lambda>img. Inr ())\<rparr>"

definition demo_base :: "xyxy base_solution" where
  "demo_base =
     \<lparr>line_width = 2, verbose = True, names = [0 \<mapsto> ''person'', 1 \<mapsto> ''bicycle''],
      clss = [], track_ids = [], boxes = []\<rparr>"

definition demo_machine :: "(xyxy call list, xyxy) machine" where
  "demo_machine = \<lparr>self = VisionEye_init demo_base, heap = (\<lambda>a. []), calls = []\<rparr>"

text \<open>Collaborators that raise: the tracker, the vision-link draw on the second box,
  and the display.\<close>

definition demo_cs_tracker_raises :: "(xyxy call list, xyxy) collaborators" where
  "demo_cs_tracker_raises = demo_cs\<lparr>track := (\<lambda>img. Inl (Raised ''tracker''))\<rparr>"

definition demo_cs_canvas_raises :: "(xyxy call list, xyxy) collaborators" where
  "demo_cs_canvas_raises =
     demo_cs\<lparr>draw_visioneye :=
       (\<lambda>w img b p. if b = (60, 60, 90, 90) then (Inl (Raised ''canvas''), img)
                     else (Inr (), img @ [VisionEyeLink w b p]))\<rparr>"

definition demo_cs_display_raises :: "(xyxy call list, xyxy) collaborators" where
  "demo_cs_display_raises = demo_cs\<lparr>show_im := (\<lambda>img. Inl (Raised ''display''))\<rparr>"

section \<open>What a call leaves behind\<close>

lemma box_label_self [simp]: "self (snd (box_label cs an b l c m)) = self m"
  by (simp add: box_label_def split: prod.splits)

lemma visioneye_self [simp]: "self (snd (visioneye cs an b p m)) = self m"
  by (simp add: visioneye_def split: prod.splits)

lemma annotate_track_self [simp]: "self (snd (annotate_track cs an x m)) = self m"
  by (auto simp: annotate_track_def box_label_def visioneye_def split: prod.splits option.splits sum.splits)

lemma mapping_loop_self [simp]: "self (snd (mapping_loop cs an ts m)) = self m"
proof (induction ts arbitrary: m)
  case Nil
  show ?case by simp
next
  case (Cons x ts)
  obtain r m1 where step: "annotate_track cs an x m = (r, m1)"
    by (cases "annotate_track cs an x m")
  have "self m1 = self m"
    using annotate_track_self [of cs an x m] step by simp
  with Cons step show ?case
    by (cases r) simp_all
qed

lemma annotate_track_ok_calls:
  assumes "annotate_track cs an x m = (Inr u, m')"
  shows "calls m' = calls m @ track_draws cs (self m) (lw an) x"
  using assms
  by (auto simp: annotate_track_def track_draws_def box_label_def visioneye_def
      split: prod.splits option.splits sum.splits)

lemma mapping_loop_ok_calls:
  assumes "mapping_loop cs an ts m = (Inr u, m')"
  shows "calls m' = calls m @ concat (map (track_draws cs (self m) (lw an)) ts)"
  using assms
proof (induction ts arbitrary: m)
  case Nil
  then show ?case by simp
next
  case (Cons x ts)
  obtain r m1 where step: "annotate_track cs an x m = (r, m1)"
    by (cases "annotate_track cs an x m")
  with Cons.prems obtain u1 where r: "r = Inr u1" and rest: "mapping_loop cs an ts m1 = (Inr u, m')"
    by (cases r) simp_all
  have s1: "self m1 = self m"
    using annotate_track_self [of cs an x m] step by simp
  have "calls m1 = calls m @ track_draws cs (self m) (lw an) x"
    using annotate_track_ok_calls step r by blast
  with Cons.IH [OF rest] s1 show ?case by simp
qed

lemma annotate_track_calls:
  "\<exists>ds. calls (snd (annotate_track cs an x m)) = calls m @ ds
     \<and> (\<forall>d\<in>set ds. draw_with (lw an) (vision_point (self m)) d)"
  by (auto simp: annotate_track_def box_label_def visioneye_def draw_with_def
      split: prod.splits option.splits sum.splits)

lemma mapping_loop_calls:
  "\<exists>ds. calls (snd (mapping_loop cs an ts m)) = calls m @ ds
     \<and> (\<forall>d\<in>set ds. draw_with (lw an) (vision_point (self m)) d)"
proof (induction ts arbitrary: m)
  case Nil
  show ?case by simp
next
  case (Cons x ts)
  obtain r m1 where step: "annotate_track cs an x m = (r, m1)"
    by (cases "annotate_track cs an x m")
  obtain ds1 where ds1: "calls m1 = calls m @ ds1"
      "\<forall>d\<in>set ds1. draw_with (lw an) (vision_point (self m)) d"
    using annotate_track_calls [of cs an x m] step by auto
  have s1: "self m1 = self m"
    using annotate_track_self [of cs an x m] step by simp
  show ?case
  proof (cases r)
    case (Inl e)
    with step ds1 show ?thesis by simp
  next
    case (Inr u)
    obtain ds2 where ds2: "calls (snd (mapping_loop cs an ts m1)) = calls m1 @ ds2"
        "\<forall>d\<in>set ds2. draw_with (lw an) (vision_point (self m1)) d"
      using Cons.IH [of m1] by auto
    have "calls (snd (mapping_loop cs an (x # ts) m)) = calls m @ (ds1 @ ds2)"
      using step Inr ds1(1) ds2(1) by simp
    moreover have "\<forall>d\<in>set (ds1 @ ds2). draw_with (lw an) (vision_point (self m)) d"
      using ds1(2) ds2(2) s1 by auto
    ultimately show ?thesis by blast
  qed
qed

lemma extract_tracks_calls [simp]:
  "calls (snd (extract_tracks cs im0 m)) = calls m @ [ExtractTracks im0]"
  by (simp add: extract_tracks_def Let_def split: sum.splits prod.splits)

lemma extract_tracks_heap [simp]: "heap (snd (extract_tracks cs im0 m)) = heap m"
  by (simp add: extract_tracks_def Let_def split: sum.splits prod.splits)

lemma extract_tracks_config [simp]:
  "vision_point (self (snd (extract_tracks cs im0 m))) = vision_point (self m)"
  "line_width (self (snd (extract_tracks cs im0 m))) = line_width (self m)"
  "verbose (self (snd (extract_tracks cs im0 m))) = verbose (self m)"
  "names (self (snd (extract_tracks cs im0 m))) = names (self m)"
  by (simp_all add: extract_tracks_def Let_def split: sum.splits prod.splits)

lemma mapping_calls:
  "\<exists>ds fin. calls (snd (mapping cs im0 m)) = calls m @ [ExtractTracks im0] @ ds @ fin
     \<and> (\<forall>d\<in>set ds. draw_with (line_width (self m)) (vision_point (self m)) d)
     \<and> (fin = [] \<or> fin = [DisplayOutput im0])
     \<and> (\<forall>r. fst (mapping cs im0 m) = Inr r \<longrightarrow> fin = [DisplayOutput im0])"
proof -
  obtain r1 m1 where ex: "extract_tracks cs im0 m = (r1, m1)"
    by (cases "extract_tracks cs im0 m")
  have c1: "calls m1 = calls m @ [ExtractTracks im0]"
    using extract_tracks_calls [of cs im0 m] ex by simp
  have cfg: "vision_point (self m1) = vision_point (self m)"
      "line_width (self m1) = line_width (self m)"
    using extract_tracks_config [of cs im0 m] ex by simp_all
  show ?thesis
  proof (cases r1)
    case (Inl e)
    with ex c1 have "calls (snd (mapping cs im0 m)) = calls m @ [ExtractTracks im0] @ [] @ []"
        and "\<forall>r. fst (mapping cs im0 m) \<noteq> Inr r"
      by (simp_all add: mapping_def)
    then show ?thesis
      by (intro exI [of _ "[]"]) simp
  next
    case (Inr u1)
    define an where "an = \<lparr>im = im0, lw = line_width (self m1)\<rparr>"
    define ts where "ts = zip3 (clss (self m1)) (track_ids (self m1)) (boxes (self m1))"
    obtain r2 m2 where lp: "mapping_loop cs an ts m1 = (r2, m2)"
      by (cases "mapping_loop cs an ts m1")
    obtain ds where ds: "calls m2 = calls m1 @ ds"
        "\<forall>d\<in>set ds. draw_with (lw an) (vision_point (self m1)) d"
      using mapping_loop_calls [of cs an ts m1] lp by auto
    have dsw: "\<forall>d\<in>set ds. draw_with (line_width (self m)) (vision_point (self m)) d"
      using ds(2) cfg by (simp add: an_def)
    show ?thesis
    proof (cases r2)
      case (Inl e)
      with ex Inr lp ds(1) c1
      have "calls (snd (mapping cs im0 m)) = calls m @ [ExtractTracks im0] @ ds @ []"
        and "\<forall>r. fst (mapping cs im0 m) \<noteq> Inr r"
        by (simp_all add: mapping_def Let_def an_def ts_def)
      with dsw show ?thesis
        by (intro exI [of _ ds] exI [of _ "[]"]) simp
    next
      case u2: (Inr u2)
      with ex Inr lp ds(1) c1
      have "calls (snd (mapping cs im0 m)) = calls m @ [ExtractTracks im0] @ ds @ [DisplayOutput im0]"
        by (simp add: mapping_def Let_def an_def ts_def display_output_def split: sum.splits)
      with dsw show ?thesis
        by (intro exI [of _ ds] exI [of _ "[DisplayOutput im0]"]) simp
    qed
  qed
qed

lemma new_calls_shape:
  "\<exists>ds fin. new_calls cs im0 m = [ExtractTracks im0] @ ds @ fin
     \<and> (\<forall>d\<in>set ds. draw_with (line_width (self m)) (vision_point (self m)) d)
     \<and> (fin = [] \<or> fin = [DisplayOutput im0])
     \<and> (\<forall>r. fst (mapping cs im0 m) = Inr r \<longrightarrow> fin = [DisplayOutput im0])"
proof -
  obtain ds fin where h: "calls (snd (mapping cs im0 m)) = calls m @ [ExtractTracks im0] @ ds @ fin"
      "\<forall>d\<in>set ds. draw_with (line_width (self m)) (vision_point (self m)) d"
      "fin = [] \<or> fin = [DisplayOutput im0]"
      "\<forall>r. fst (mapping cs im0 m) = Inr r \<longrightarrow> fin = [DisplayOutput im0]"
    using mapping_calls [of cs im0 m] by blast
  have "new_calls cs im0 m = [ExtractTracks im0] @ ds @ fin"
    by (simp add: new_calls_def h(1))
  with h(2-4) show ?thesis by blast
qed

section \<open>The frame buffer, and calls that do not raise\<close>

lemma annotate_track_heap_other:
  "a \<noteq> im an \<Longrightarrow> heap (snd (annotate_track cs an x m)) a = heap m a"
  by (auto simp: annotate_track_def box_label_def visioneye_def
      split: prod.splits option.splits sum.splits)

lemma mapping_loop_heap_other:
  "a \<noteq> im an \<Longrightarrow> heap (snd (mapping_loop cs an ts m)) a = heap m a"
proof (induction ts arbitrary: m)
  case Nil
  show ?case by simp
next
  case (Cons x ts)
  obtain r m1 where step: "annotate_track cs an x m = (r, m1)"
    by (cases "annotate_track cs an x m")
  have "heap m1 a = heap m a"
    using annotate_track_heap_other [OF Cons.prems, of cs x m] step by simp
  with Cons step show ?case
    by (cases r) simp_all
qed

lemma annotate_track_ok_heap:
  assumes "annotate_track cs an x m = (Inr u, m')"
  shows "heap m' (im an) = track_paint cs (self m) (lw an) x (heap m (im an))"
  using assms
  by (auto simp: annotate_track_def track_paint_def box_label_def visioneye_def
      split: prod.splits option.splits sum.splits)

lemma mapping_loop_ok_heap:
  assumes "mapping_loop cs an ts m = (Inr u, m')"
  shows "heap m' (im an) = fold (track_paint cs (self m) (lw an)) ts (heap m (im an))"
  using assms
proof (induction ts arbitrary: m)
  case Nil
  then show ?case by simp
next
  case (Cons x ts)
  obtain r m1 where step: "annotate_track cs an x m = (r, m1)"
    by (cases "annotate_track cs an x m")
  with Cons.prems obtain u1 where r: "r = Inr u1" and rest: "mapping_loop cs an ts m1 = (Inr u, m')"
    by (cases r) simp_all
  have s1: "self m1 = self m"
    using annotate_track_self [of cs an x m] step by simp
  have "heap m1 (im an) = track_paint cs (self m) (lw an) x (heap m (im an))"
    using annotate_track_ok_heap step r by blast
  with Cons.IH [OF rest] s1 show ?case by simp
qed

text \<open>The loop over \<open>pre @ x # post\<close> that gets through \<open>pre\<close> goes on with \<open>x\<close>.\<close>

lemma mapping_loop_append:
  assumes "mapping_loop cs an pre m = (Inr u, m1)"
  shows "mapping_loop cs an (pre @ post) m = mapping_loop cs an post m1"
  using assms
proof (induction pre arbitrary: m)
  case Nil
  then show ?case by simp
next
  case (Cons x pre)
  obtain r m0 where step: "annotate_track cs an x m = (r, m0)"
    by (cases "annotate_track cs an x m")
  with Cons.prems obtain u0 where r: "r = Inr u0" and rest: "mapping_loop cs an pre m0 = (Inr u, m1)"
    by (cases r) simp_all
  from Cons.IH [OF rest] step r show ?case by simp
qed

lemma annotate_track_no_raise:
  assumes "canvas_ok cs" and "names (self m) cls = Some label" and "colors cs t_id True = Inr c"
  shows "fst (annotate_track cs an (cls, t_id, box) m) = Inr ()"
proof -
  obtain img1 where b: "draw_box_label cs (lw an) (heap m (im an)) box label c = (Inr (), img1)"
    using assms(1) by (metis canvas_ok_def prod.collapse)
  define m1 where "m1 = m\<lparr>heap := (heap m)(im an := img1),
    calls := calls m @ [BoxLabel (lw an) box label c]\<rparr>"
  obtain img2 where v: "draw_visioneye cs (lw an) (heap m1 (im an)) box (vision_point (self m1))
      = (Inr (), img2)"
    using assms(1) by (metis canvas_ok_def prod.collapse)
  have "box_label cs an box label c m = (Inr (), m1)"
    by (simp add: box_label_def b m1_def)
  moreover have "fst (visioneye cs an box (vision_point (self m1)) m1) = Inr ()"
    by (simp add: visioneye_def v)
  ultimately show ?thesis
    using assms(2,3) by (simp add: annotate_track_def)
qed

lemma mapping_loop_no_raise:
  assumes "canvas_ok cs"
    and "\<forall>(cls, t_id, box)\<in>set ts. names (self m) cls = Some (lab cls) \<and> colors cs t_id True = Inr (col t_id)"
  shows "fst (mapping_loop cs an ts m) = Inr ()"
  using assms(2)
proof (induction ts arbitrary: m)
  case Nil
  show ?case by simp
next
  case (Cons x ts)
  obtain cls t_id box where x: "x = (cls, t_id, box)"
    by (cases x)
  obtain r m1 where step: "annotate_track cs an x m = (r, m1)"
    by (cases "annotate_track cs an x m")
  have "names (self m) cls = Some (lab cls)" "colors cs t_id True = Inr (col t_id)"
    using Cons.prems x by simp_all
  then have r: "r = Inr ()"
    using annotate_track_no_raise [OF assms(1), of m cls "lab cls" t_id "col t_id" an box] step x
    by simp
  have s1: "self m1 = self m"
    using annotate_track_self [of cs an x m] step by simp
  have "fst (mapping_loop cs an ts m1) = Inr ()"
    using Cons.IH [of m1] Cons.prems s1 by simp
  with step r show ?case by simp
qed

lemma track_draws_ok:
  assumes "names s cls = Some label" and "colors cs t_id True = Inr c"
  shows "track_draws cs s w (cls, t_id, box) = [BoxLabel w box label c, VisionEyeLink w box (vision_point s)]"
  using assms by (simp add: track_draws_def)

lemma map_track_draws_ok:
  assumes "\<forall>(cls, t_id, box)\<in>set ts. names s cls = Some (lab cls) \<and> colors cs t_id True = Inr (col t_id)"
  shows "map (track_draws cs s w) ts =
     map (\<lambda>(cls, t_id, box). [BoxLabel w box (lab cls) (col t_id), VisionEyeLink w box (vision_point s)]) ts"
  using assms by (auto simp: track_draws_def)

section \<open>Counting tracks and draws\<close>

lemma filter_box_label_pairs:
  "filter is_box_label (concat (map (\<lambda>(cls, t_id, box). [BoxLabel w box (f cls) (g t_id), VisionEyeLink w box p]) ts))
     = map (\<lambda>(cls, t_id, box). BoxLabel w box (f cls) (g t_id)) ts"
  by (induction ts) auto

lemma filter_visioneye_pairs:
  "filter is_visioneye (concat (map (\<lambda>(cls, t_id, box). [BoxLabel w box (f cls) (g t_id), VisionEyeLink w box p]) ts))
     = map (\<lambda>(cls, t_id, box). VisionEyeLink w box p) ts"
  by (induction ts) auto

lemma extract_tracks_ok:
  assumes "track cs (heap m im0) = Inr (cl, ti, bx)"
  shows "extract_tracks cs im0 m =
     (Inr (), m\<lparr>calls := calls m @ [ExtractTracks im0],
                self := (self m)\<lparr>clss := cl, track_ids := ti, boxes := bx\<rparr>\<rparr>)"
  using assms by (simp add: extract_tracks_def)

lemma mapping_no_raise:
  assumes tr: "track cs (heap m im0) = Inr (cl, ti, bx)"
    and ok: "canvas_ok cs"
    and nm: "\<forall>(cls, t_id, box)\<in>set (zip3 cl ti bx).
               names (self m) cls = Some (lab cls) \<and> colors cs t_id True = Inr (col t_id)"
  shows "fst (mapping cs im0 m) =
           Inr \<lparr>plot_im = im0, total_tracks = length ti, res_verbose = verbose (self m)\<rparr>"
    and "new_calls cs im0 m =
           [ExtractTracks im0] @
           concat (map (\<lambda>(cls, t_id, box).
                     [BoxLabel (line_width (self m)) box (lab cls) (col t_id),
                      VisionEyeLink (line_width (self m)) box (vision_point (self m))])
                   (zip3 cl ti bx)) @
           [DisplayOutput im0]"
proof -
  define m1 where "m1 = m\<lparr>calls := calls m @ [ExtractTracks im0],
    self := (self m)\<lparr>clss := cl, track_ids := ti, boxes := bx\<rparr>\<rparr>"
  define an where "an = \<lparr>im = im0, lw = line_width (self m1)\<rparr>"
  define ts where "ts = zip3 cl ti bx"
  have ex: "extract_tracks cs im0 m = (Inr (), m1)"
    using extract_tracks_ok [OF tr] by (simp add: m1_def)
  have tracks: "zip3 (clss (self m1)) (track_ids (self m1)) (boxes (self m1)) = ts"
    by (simp add: m1_def ts_def)
  have nm1: "\<forall>(cls, t_id, box)\<in>set ts.
      names (self m1) cls = Some (lab cls) \<and> colors cs t_id True = Inr (col t_id)"
    using nm by (simp add: m1_def ts_def)
  obtain m2 where lp: "mapping_loop cs an ts m1 = (Inr (), m2)"
    using mapping_loop_no_raise [OF ok nm1, of an] by (cases "mapping_loop cs an ts m1") simp
  have s2: "self m2 = self m1"
    using mapping_loop_self [of cs an ts m1] lp by simp
  have c2: "calls m2 = calls m1 @ concat (map (track_draws cs (self m1) (lw an)) ts)"
    using mapping_loop_ok_calls [OF lp] .
  have d: "display_output cs im0 m2 = (Inr (), m2\<lparr>calls := calls m2 @ [DisplayOutput im0]\<rparr>)"
    using ok by (simp add: display_output_def canvas_ok_def)
  have res: "mapping cs im0 m =
      (Inr \<lparr>plot_im = im0, total_tracks = length (track_ids (self m2)),
            res_verbose = verbose (self m2)\<rparr>, m2\<lparr>calls := calls m2 @ [DisplayOutput im0]\<rparr>)"
    using ex lp d tracks by (simp add: mapping_def Let_def an_def)
  show "fst (mapping cs im0 m) =
      Inr \<lparr>plot_im = im0, total_tracks = length ti, res_verbose = verbose (self m)\<rparr>"
    by (simp add: res s2) (simp add: m1_def)
  have "map (track_draws cs (self m1) (lw an)) ts =
      map (\<lambda>(cls, t_id, box). [BoxLabel (lw an) box (lab cls) (col t_id),
             VisionEyeLink (lw an) box (vision_point (self m1))]) ts"
    using map_track_draws_ok [OF nm1] .
  with c2 have "calls m2 = calls m1 @
      concat (map (\<lambda>(cls, t_id, box). [BoxLabel (lw an) box (lab cls) (col t_id),
             VisionEyeLink (lw an) box (vision_point (self m1))]) ts)"
    by (simp only:)
  moreover have "lw an = line_width (self m)" "vision_point (self m1) = vision_point (self m)"
      "calls m1 = calls m @ [ExtractTracks im0]"
    by (simp_all add: an_def m1_def)
  ultimately have "calls m2 = calls m @ [ExtractTracks im0] @
      concat (map (\<lambda>(cls, t_id, box). [BoxLabel (line_width (self m)) box (lab cls) (col t_id),
             VisionEyeLink (line_width (self m)) box (vision_point (self m))]) ts)"
    by (simp only: append_assoc)
  then show "new_calls cs im0 m = [ExtractTracks im0] @
           concat (map (\<lambda>(cls, t_id, box).
                     [BoxLabel (line_width (self m)) box (lab cls) (col t_id),
                      VisionEyeLink (line_width (self m)) box (vision_point (self m))])
                   (zip3 cl ti bx)) @
           [DisplayOutput im0]"
    by (simp add: new_calls_def res ts_def)
qed

text \<open>
  Claim C1. When the tracker returns \<open>N\<close> tracks (the three sequences have length \<open>N\<close>)
  and no collaborator raises (every class has a name, the palette answers for every
  identity, the drawing and display calls return), \<^verbatim>\<open>mapping\<close> returns a result with
  \<open>total_tracks = N\<close>, and the calls it makes are: the extraction, then for each track
  in the tracker's order one labelled box followed by one vision link, then the display.
  So there are exactly \<open>N\<close> labelled-box draws and \<open>N\<close> vision-link draws.
\<close>

theorem mapping_total_tracks:
  assumes "track cs (heap m im0) = Inr (cl, ti, bx)"
    and "length cl = N" and "length ti = N" and "length bx = N"
    and "\<forall>cls\<in>set cl. names (self m) cls = Some (lab cls)"
    and "\<forall>t_id\<in>set ti. colors cs t_id True = Inr (col t_id)"
    and "canvas_ok cs"
  shows "fst (mapping cs im0 m) =
           Inr \<lparr>plot_im = im0, total_tracks = N, res_verbose = verbose (self m)\<rparr>
       \<and> new_calls cs im0 m =
           [ExtractTracks im0] @
           concat (map (\<lambda>(cls, t_id, box).
                     [BoxLabel (line_width (self m)) box (lab cls) (col t_id),
                      VisionEyeLink (line_width (self m)) box (vision_point (self m))])
                   (zip3 cl ti bx)) @
           [DisplayOutput im0]
       \<and> length (zip3 cl ti bx) = N
       \<and> map fst (zip3 cl ti bx) = cl
       \<and> map (fst \<circ> snd) (zip3 cl ti bx) = ti
       \<and> map (snd \<circ> snd) (zip3 cl ti bx) = bx
       \<and> length (filter is_box_label (new_calls cs im0 m)) = N
       \<and> length (filter is_visioneye (new_calls cs im0 m)) = N"
proof -
  have nm: "\<forall>(cls, t_id, box)\<in>set (zip3 cl ti bx).
      names (self m) cls = Some (lab cls) \<and> colors cs t_id True = Inr (col t_id)"
    using assms(5,6) by (auto simp: zip3_def dest: set_zip_leftD set_zip_rightD)
  note core = mapping_no_raise [OF assms(1) assms(7) nm]
  have len: "length (zip3 cl ti bx) = N"
    using assms(2-4) by (simp add: zip3_def)
  have z1: "map fst (zip3 cl ti bx) = cl"
    using assms(2-4) by (simp add: zip3_def)
  have "map snd (zip3 cl ti bx) = zip ti bx"
    using assms(2-4) by (simp add: zip3_def)
  then have z2: "map (fst \<circ> snd) (zip3 cl ti bx) = ti" and z3: "map (snd \<circ> snd) (zip3 cl ti bx) = bx"
    using assms(3,4) by (simp_all flip: map_map)
  have b: "length (filter is_box_label (new_calls cs im0 m)) = N"
    by (simp add: core(2) filter_box_label_pairs len)
  have v: "length (filter is_visioneye (new_calls cs im0 m)) = N"
    by (simp add: core(2) filter_visioneye_pairs len)
  from core(1) core(2) len z1 z2 z3 b v assms(3) show ?thesis
    by simp
qed

theorem mapping_total_tracks_witness:
  "track demo_cs (heap demo_machine 0) = Inr ([0, 1], [5, 7], [(10, 10, 50, 50), (60, 60, 90, 90)])
   \<and> canvas_ok demo_cs
   \<and> fst (mapping demo_cs 0 demo_machine) = Inr \<lparr>plot_im = 0, total_tracks = 2, res_verbose = True\<rparr>
   \<and> new_calls demo_cs 0 demo_machine =
       [ExtractTracks 0,
        BoxLabel 2 (10, 10, 50, 50) ''person'' (5, 0, 255), VisionEyeLink 2 (10, 10, 50, 50) (20, 20),
        BoxLabel 2 (60, 60, 90, 90) ''bicycle'' (7, 0, 255), VisionEyeLink 2 (60, 60, 90, 90) (20, 20),
        DisplayOutput 0]"
  using mapping_total_tracks [where cs = demo_cs and m = demo_machine and ?im0.0 = 0
      and cl = "[0, 1]" and ti = "[5, 7]" and bx = "[(10, 10, 50, 50), (60, 60, 90, 90)]"
      and N = 2 and lab = "\<lambda>c. if c = 0 then ''person'' else ''bicycle''"
      and col = "\<lambda>t. (t, 0, 255)"]
  by (simp add: demo_cs_def demo_machine_def demo_base_def VisionEye_init_def canvas_ok_def zip3_def)

text \<open>
  Claim C3. When the tracker returns no track and the display call returns, \<^verbatim>\<open>mapping\<close>
  returns a result (not an exception) with \<open>total_tracks = 0\<close>; it makes no labelled-box
  draw and no vision-link draw, and the display call is still made.
\<close>

theorem mapping_no_tracks:
  assumes "track cs (heap m im0) = Inr ([], [], [])"
    and "show_im cs (heap m im0) = Inr ()"
  shows "mapping cs im0 m =
           (Inr \<lparr>plot_im = im0, total_tracks = 0, res_verbose = verbose (self m)\<rparr>,
            m\<lparr>calls := calls m @ [ExtractTracks im0, DisplayOutput im0],
              self := (self m)\<lparr>clss := [], track_ids := [], boxes := []\<rparr>\<rparr>)
       \<and> new_calls cs im0 m = [ExtractTracks im0, DisplayOutput im0]
       \<and> filter is_box_label (new_calls cs im0 m) = []
       \<and> filter is_visioneye (new_calls cs im0 m) = []"
proof -
  have res: "mapping cs im0 m =
           (Inr \<lparr>plot_im = im0, total_tracks = 0, res_verbose = verbose (self m)\<rparr>,
            m\<lparr>calls := calls m @ [ExtractTracks im0, DisplayOutput im0],
              self := (self m)\<lparr>clss := [], track_ids := [], boxes := []\<rparr>\<rparr>)"
    using assms
    by (simp add: mapping_def extract_tracks_def display_output_def zip3_def Let_def)
  then have "new_calls cs im0 m = [ExtractTracks im0, DisplayOutput im0]"
    by (simp add: new_calls_def)
  with res show ?thesis by simp
qed

theorem mapping_no_tracks_witness:
  "track (demo_cs\<lparr>track := \<lambda>img. Inr ([], [], [])\<rparr>) (heap demo_machine 0) = Inr ([], [], [])
   \<and> fst (mapping (demo_cs\<lparr>track := \<lambda>img. Inr ([], [], [])\<rparr>) 0 demo_machine) =
       Inr \<lparr>plot_im = 0, total_tracks = 0, res_verbose = True\<rparr>
   \<and> new_calls (demo_cs\<lparr>track := \<lambda>img. Inr ([], [], [])\<rparr>) 0 demo_machine =
       [ExtractTracks 0, DisplayOutput 0]"
  using mapping_no_tracks [where cs = "demo_cs\<lparr>track := \<lambda>img. Inr ([], [], [])\<rparr>"
      and m = demo_machine and ?im0.0 = 0]
  by (simp add: demo_cs_def demo_machine_def demo_base_def VisionEye_init_def)

text \<open>
  Claim C10. With class, identity and box sequences of any lengths, and no collaborator
  raising, \<^verbatim>\<open>mapping\<close> draws as many pairs as the shortest sequence has elements, but
  returns \<open>total_tracks\<close> as the length of the identity sequence; the two agree exactly
  when the identity sequence is no longer than the other two.
\<close>

theorem mapping_zip_truncation:
  assumes "track cs (heap m im0) = Inr (cl, ti, bx)"
    and "canvas_ok cs"
    and "\<forall>(cls, t_id, box)\<in>set (zip3 cl ti bx).
           names (self m) cls = Some (lab cls) \<and> colors cs t_id True = Inr (col t_id)"
  shows "fst (mapping cs im0 m) =
           Inr \<lparr>plot_im = im0, total_tracks = length ti, res_verbose = verbose (self m)\<rparr>
       \<and> length (filter is_box_label (new_calls cs im0 m)) =
           min (length cl) (min (length ti) (length bx))
       \<and> length (filter is_visioneye (new_calls cs im0 m)) =
           min (length cl) (min (length ti) (length bx))
       \<and> filter (\<lambda>d. is_box_label d \<or> is_visioneye d) (new_calls cs im0 m) =
           concat (map (\<lambda>(cls, t_id, box).
                     [BoxLabel (line_width (self m)) box (lab cls) (col t_id),
                      VisionEyeLink (line_width (self m)) box (vision_point (self m))])
                   (zip3 cl ti bx))
       \<and> (\<forall>r. fst (mapping cs im0 m) = Inr r \<longrightarrow>
             (total_tracks r = length (filter is_box_label (new_calls cs im0 m))
                \<longleftrightarrow> length ti \<le> length cl \<and> length ti \<le> length bx))"
proof -
  note core = mapping_no_raise [OF assms]
  have len: "length (zip3 cl ti bx) = min (length cl) (min (length ti) (length bx))"
    by (simp add: zip3_def)
  have b: "length (filter is_box_label (new_calls cs im0 m)) = min (length cl) (min (length ti) (length bx))"
    by (simp add: core(2) filter_box_label_pairs len)
  have v: "length (filter is_visioneye (new_calls cs im0 m)) = min (length cl) (min (length ti) (length bx))"
    by (simp add: core(2) filter_visioneye_pairs len)
  have draws: "filter (\<lambda>d. is_box_label d \<or> is_visioneye d)
      (concat (map (\<lambda>(cls, t_id, box). [BoxLabel w box (f cls) (g t_id), VisionEyeLink w box p]) ts))
     = concat (map (\<lambda>(cls, t_id, box). [BoxLabel w box (f cls) (g t_id), VisionEyeLink w box p]) ts)"
    for w p ts and f :: "int \<Rightarrow> string" and g :: "int \<Rightarrow> color"
    by (induction ts) auto
  have d: "filter (\<lambda>d. is_box_label d \<or> is_visioneye d) (new_calls cs im0 m) =
           concat (map (\<lambda>(cls, t_id, box).
                     [BoxLabel (line_width (self m)) box (lab cls) (col t_id),
                      VisionEyeLink (line_width (self m)) box (vision_point (self m))])
                   (zip3 cl ti bx))"
    by (simp add: core(2) draws)
  have e: "\<forall>r. fst (mapping cs im0 m) = Inr r \<longrightarrow>
             (total_tracks r = length (filter is_box_label (new_calls cs im0 m))
                \<longleftrightarrow> length ti \<le> length cl \<and> length ti \<le> length bx)"
    unfolding b core(1) by auto
  from core(1) b v d e show ?thesis by blast
qed

theorem mapping_zip_truncation_witness:
  "track (demo_cs\<lparr>track := \<lambda>img. Inr ([0], [5, 7], [(10, 10, 50, 50), (60, 60, 90, 90)])\<rparr>)
       (heap demo_machine 0) = Inr ([0], [5, 7], [(10, 10, 50, 50), (60, 60, 90, 90)])
   \<and> fst (mapping (demo_cs\<lparr>track := \<lambda>img. Inr ([0], [5, 7], [(10, 10, 50, 50), (60, 60, 90, 90)])\<rparr>)
            0 demo_machine) =
       Inr \<lparr>plot_im = 0, total_tracks = 2, res_verbose = True\<rparr>
   \<and> length (filter is_box_label
        (new_calls (demo_cs\<lparr>track := \<lambda>img. Inr ([0], [5, 7], [(10, 10, 50, 50), (60, 60, 90, 90)])\<rparr>)
            0 demo_machine)) = 1
   \<and> length (filter is_visioneye
        (new_calls (demo_cs\<lparr>track := \<lambda>img. Inr ([0], [5, 7], [(10, 10, 50, 50), (60, 60, 90, 90)])\<rparr>)
            0 demo_machine)) = 1"
  using mapping_zip_truncation
    [where cs = "demo_cs\<lparr>track := \<lambda>img. Inr ([0], [5, 7], [(10, 10, 50, 50), (60, 60, 90, 90)])\<rparr>"
      and m = demo_machine and ?im0.0 = 0
      and cl = "[0]" and ti = "[5, 7]" and bx = "[(10, 10, 50, 50), (60, 60, 90, 90)]"
      and lab = "\<lambda>c. ''person''" and col = "\<lambda>t. (t, 0, 255)"]
  by (simp add: demo_cs_def demo_machine_def demo_base_def VisionEye_init_def canvas_ok_def zip3_def)

section \<open>The vision point and the display call\<close>

text \<open>
  Claim C7. \<^verbatim>\<open>set_vision_point\<close> is idempotent, stores any point it is given (the point
  ranges over all pairs of integers, negative ones included, and the operation has no
  error result), and changes no attribute other than the vision point; the last value
  set is the one that stays.
\<close>

theorem set_vision_point_idempotent:
  "set_vision_point p (set_vision_point p s) = set_vision_point p s
   \<and> vision_point (set_vision_point p s) = p
   \<and> line_width (set_vision_point p s) = line_width s
   \<and> verbose (set_vision_point p s) = verbose s
   \<and> names (set_vision_point p s) = names s
   \<and> clss (set_vision_point p s) = clss s
   \<and> track_ids (set_vision_point p s) = track_ids s
   \<and> boxes (set_vision_point p s) = boxes s
   \<and> set_vision_point p (set_vision_point q s) = set_vision_point p s"
  by (simp add: set_vision_point_def)

lemma new_calls_visioneye_point:
  assumes "d \<in> set (new_calls cs im0 m)" and "d = VisionEyeLink w box q"
  shows "q = vision_point (self m)"
proof -
  obtain ds fin where h: "new_calls cs im0 m = [ExtractTracks im0] @ ds @ fin"
      "\<forall>d\<in>set ds. draw_with (line_width (self m)) (vision_point (self m)) d"
      "fin = [] \<or> fin = [DisplayOutput im0]"
    using new_calls_shape [of cs im0 m] by blast
  from assms h(1,3) have "d \<in> set ds" by auto
  with h(2) assms(2) show ?thesis
    by (auto simp: draw_with_def)
qed

text \<open>
  Claim C4. After \<^verbatim>\<open>set_vision_point(p)\<close>, every vision-link draw of the next
  \<^verbatim>\<open>mapping\<close> call is made from \<open>p\<close>, whatever the point was before.
\<close>

theorem set_vision_point_then_mapping:
  "\<forall>d\<in>set (new_calls cs im0 (m\<lparr>self := set_vision_point p (self m)\<rparr>)).
     \<forall>w box q. d = VisionEyeLink w box q \<longrightarrow> q = p"
proof (intro ballI allI impI)
  fix d w box q
  assume "d \<in> set (new_calls cs im0 (m\<lparr>self := set_vision_point p (self m)\<rparr>))"
    and "d = VisionEyeLink w box q"
  then have "q = vision_point (self (m\<lparr>self := set_vision_point p (self m)\<rparr>))"
    by (rule new_calls_visioneye_point)
  then show "q = p"
    by (simp add: set_vision_point_def)
qed

theorem set_vision_point_then_mapping_witness:
  "new_calls (demo_cs\<lparr>track := \<lambda>img. Inr ([0], [5], [(10, 10, 50, 50)])\<rparr>) 0
       (demo_machine\<lparr>self := set_vision_point (100, 100) (self demo_machine)\<rparr>) =
     [ExtractTracks 0, BoxLabel 2 (10, 10, 50, 50) ''person'' (5, 0, 255),
      VisionEyeLink 2 (10, 10, 50, 50) (100, 100), DisplayOutput 0]
   \<and> VisionEyeLink 2 (10, 10, 50, 50) (20, 20) \<notin>
       set (new_calls (demo_cs\<lparr>track := \<lambda>img. Inr ([0], [5], [(10, 10, 50, 50)])\<rparr>) 0
              (demo_machine\<lparr>self := set_vision_point (100, 100) (self demo_machine)\<rparr>))"
  using set_vision_point_then_mapping
    [where cs = "demo_cs\<lparr>track := \<lambda>img. Inr ([0], [5], [(10, 10, 50, 50)])\<rparr>"
      and ?im0.0 = 0 and m = demo_machine and p = "(100, 100)"]
  by (simp add: new_calls_def mapping_def extract_tracks_def annotate_track_def box_label_def
      visioneye_def display_output_def zip3_def set_vision_point_def
      demo_cs_def demo_machine_def demo_base_def VisionEye_init_def)

text \<open>
  Claim C8. A freshly constructed \<^verbatim>\<open>VisionEye\<close> has the vision point \<open>(20, 20)\<close>, and a
  \<^verbatim>\<open>mapping\<close> call in that state makes every vision-link draw from \<open>(20, 20)\<close>.
\<close>

theorem VisionEye_init_vision_point:
  "vision_point (VisionEye_init base) = (20, 20)
   \<and> (\<forall>d\<in>set (new_calls cs im0 \<lparr>self = VisionEye_init base, heap = h, calls = past\<rparr>).
        \<forall>w box q. d = VisionEyeLink w box q \<longrightarrow> q = (20, 20))"
proof
  show "vision_point (VisionEye_init base) = (20, 20)"
    by (simp add: VisionEye_init_def)
  show "\<forall>d\<in>set (new_calls cs im0 \<lparr>self = VisionEye_init base, heap = h, calls = past\<rparr>).
        \<forall>w box q. d = VisionEyeLink w box q \<longrightarrow> q = (20, 20)"
  proof (intro ballI allI impI)
    fix d w box q
    assume "d \<in> set (new_calls cs im0 \<lparr>self = VisionEye_init base, heap = h, calls = past\<rparr>)"
      and "d = VisionEyeLink w box q"
    then have "q = vision_point (self \<lparr>self = VisionEye_init base, heap = h, calls = past\<rparr>)"
      by (rule new_calls_visioneye_point)
    then show "q = (20, 20)"
      by (simp add: VisionEye_init_def)
  qed
qed

theorem VisionEye_init_vision_point_witness:
  "vision_point (VisionEye_init demo_base) = (20, 20)
   \<and> new_calls demo_cs 0 \<lparr>self = VisionEye_init demo_base, heap = (\<lambda>a. []), calls = []\<rparr> =
       [ExtractTracks 0,
        BoxLabel 2 (10, 10, 50, 50) ''person'' (5, 0, 255), VisionEyeLink 2 (10, 10, 50, 50) (20, 20),
        BoxLabel 2 (60, 60, 90, 90) ''bicycle'' (7, 0, 255), VisionEyeLink 2 (60, 60, 90, 90) (20, 20),
        DisplayOutput 0]
   \<and> VisionEyeLink 2 (10, 10, 50, 50) (0, 0) \<notin>
       set (new_calls demo_cs 0 \<lparr>self = VisionEye_init demo_base, heap = (\<lambda>a. []), calls = []\<rparr>)"
  using VisionEye_init_vision_point
    [where base = demo_base and cs = demo_cs and ?im0.0 = 0 and h = "\<lambda>a. []" and past = "[]"]
  by (simp add: new_calls_def mapping_def extract_tracks_def annotate_track_def box_label_def
      visioneye_def display_output_def zip3_def
      demo_cs_def demo_base_def VisionEye_init_def)

lemma draw_with_not_display: "draw_with w p d \<Longrightarrow> \<not> is_display_output d"
  by (cases d) (simp_all add: draw_with_def)

text \<open>
  Claim C5. In any \<^verbatim>\<open>mapping\<close> call a display call can only be the last call made, so
  no draw follows it; and in a call that returns, the display call is made exactly once,
  as the last call.
\<close>

theorem mapping_display_once_last:
  "(\<forall>i<length (new_calls cs im0 m).
      is_display_output (new_calls cs im0 m ! i) \<longrightarrow> Suc i = length (new_calls cs im0 m))
   \<and> (\<forall>r. fst (mapping cs im0 m) = Inr r \<longrightarrow>
        last (new_calls cs im0 m) = DisplayOutput im0
        \<and> length (filter is_display_output (new_calls cs im0 m)) = 1)"
proof -
  obtain ds fin where h: "new_calls cs im0 m = [ExtractTracks im0] @ ds @ fin"
      "\<forall>d\<in>set ds. draw_with (line_width (self m)) (vision_point (self m)) d"
      "fin = [] \<or> fin = [DisplayOutput im0]"
      "\<forall>r. fst (mapping cs im0 m) = Inr r \<longrightarrow> fin = [DisplayOutput im0]"
    using new_calls_shape [of cs im0 m] by blast
  have "\<forall>d\<in>set ds. \<not> is_display_output d"
    using h(2) draw_with_not_display by blast
  then have nd: "\<forall>d\<in>set ([ExtractTracks im0] @ ds). \<not> is_display_output d"
    by simp
  have first: "\<forall>i<length (new_calls cs im0 m).
      is_display_output (new_calls cs im0 m ! i) \<longrightarrow> Suc i = length (new_calls cs im0 m)"
  proof (intro allI impI)
    fix i
    assume i: "i < length (new_calls cs im0 m)"
      and disp: "is_display_output (new_calls cs im0 m ! i)"
    have eq: "new_calls cs im0 m = ([ExtractTracks im0] @ ds) @ fin"
      using h(1) by simp
    have "\<not> i < length ([ExtractTracks im0] @ ds)"
    proof
      assume lt: "i < length ([ExtractTracks im0] @ ds)"
      then have "new_calls cs im0 m ! i = ([ExtractTracks im0] @ ds) ! i"
        unfolding eq by (rule nth_append_left)
      moreover have "([ExtractTracks im0] @ ds) ! i \<in> set ([ExtractTracks im0] @ ds)"
        using lt by (rule nth_mem)
      ultimately show False
        using nd disp by metis
    qed
    moreover have "length (new_calls cs im0 m) \<le> Suc (length ([ExtractTracks im0] @ ds))"
      using h(3) unfolding eq by auto
    ultimately show "Suc i = length (new_calls cs im0 m)"
      using i by linarith
  qed
  have second: "\<forall>r. fst (mapping cs im0 m) = Inr r \<longrightarrow>
        last (new_calls cs im0 m) = DisplayOutput im0
        \<and> length (filter is_display_output (new_calls cs im0 m)) = 1"
  proof (intro allI impI)
    fix r
    assume "fst (mapping cs im0 m) = Inr r"
    with h(4) have fin: "fin = [DisplayOutput im0]" by blast
    have "\<forall>d\<in>set ds. \<not> is_display_output d"
      using h(2) draw_with_not_display by blast
    then have "filter is_display_output ds = []"
      by (simp add: filter_empty_conv)
    then show "last (new_calls cs im0 m) = DisplayOutput im0
        \<and> length (filter is_display_output (new_calls cs im0 m)) = 1"
      by (simp add: h(1) fin)
  qed
  from first second show ?thesis by blast
qed

theorem mapping_display_once_last_witness:
  "fst (mapping demo_cs 0 demo_machine) = Inr \<lparr>plot_im = 0, total_tracks = 2, res_verbose = True\<rparr>
   \<and> length (new_calls demo_cs 0 demo_machine) = 6
   \<and> is_display_output (new_calls demo_cs 0 demo_machine ! 5)
   \<and> last (new_calls demo_cs 0 demo_machine) = DisplayOutput 0
   \<and> length (filter is_display_output (new_calls demo_cs 0 demo_machine)) = 1"
  using mapping_display_once_last [where cs = demo_cs and ?im0.0 = 0 and m = demo_machine]
  by (simp add: new_calls_def mapping_def extract_tracks_def annotate_track_def box_label_def
      visioneye_def display_output_def zip3_def
      demo_cs_def demo_machine_def demo_base_def VisionEye_init_def)

section \<open>Calls that return\<close>

lemma mapping_unfold:
  assumes "extract_tracks cs im0 m = (Inr u, m1)"
    and "mapping_loop cs \<lparr>im = im0, lw = line_width (self m1)\<rparr>
           (zip3 (clss (self m1)) (track_ids (self m1)) (boxes (self m1))) m1 = (r2, m2)"
  shows "mapping cs im0 m =
     (case r2 of
        Inl e \<Rightarrow> (Inl e, m2)
      | Inr _ \<Rightarrow>
          (case show_im cs (heap m2 im0) of
             Inl e \<Rightarrow> (Inl e, m2\<lparr>calls := calls m2 @ [DisplayOutput im0]\<rparr>)
           | Inr _ \<Rightarrow>
               (Inr \<lparr>plot_im = im0, total_tracks = length (track_ids (self m2)),
                     res_verbose = verbose (self m2)\<rparr>,
                m2\<lparr>calls := calls m2 @ [DisplayOutput im0]\<rparr>)))"
  using assms
  by (simp add: mapping_def display_output_def Let_def split: sum.splits)

lemma track_draws_cong:
  assumes "names s = names s'" and "vision_point s = vision_point s'" and "colors cs = colors cs'"
  shows "track_draws cs s w x = track_draws cs' s' w x"
  unfolding track_draws_def assms by (rule refl)

lemma track_paint_cong:
  assumes "names s = names s'" and "vision_point s = vision_point s'"
  shows "track_paint cs s w x img = track_paint cs s' w x img"
  unfolding track_paint_def assms by (rule refl)

lemma track_draws_are_draws:
  "d \<in> set (track_draws cs s w x) \<Longrightarrow> is_box_label d \<or> is_visioneye d"
  by (auto simp: track_draws_def split: prod.splits option.splits sum.splits)

lemma filter_track_draws:
  "filter (\<lambda>d. is_box_label d \<or> is_visioneye d) (concat (map (track_draws cs s w) ts))
     = concat (map (track_draws cs s w) ts)"
  by (rule filter_True) (auto dest: track_draws_are_draws)

lemma mapping_ok:
  assumes ret: "fst (mapping cs im0 m) = Inr r"
    and tr: "track cs (heap m im0) = Inr (cl, ti, bx)"
  shows "new_calls cs im0 m =
           [ExtractTracks im0] @
           concat (map (track_draws cs (self m) (line_width (self m))) (zip3 cl ti bx)) @
           [DisplayOutput im0]"
    and "r = \<lparr>plot_im = im0, total_tracks = length ti, res_verbose = verbose (self m)\<rparr>"
    and "heap (snd (mapping cs im0 m)) im0 =
           fold (track_paint cs (self m) (line_width (self m))) (zip3 cl ti bx) (heap m im0)"
    and "self (snd (mapping cs im0 m)) = (self m)\<lparr>clss := cl, track_ids := ti, boxes := bx\<rparr>"
proof -
  define m1 where "m1 = m\<lparr>calls := calls m @ [ExtractTracks im0],
    self := (self m)\<lparr>clss := cl, track_ids := ti, boxes := bx\<rparr>\<rparr>"
  define an where "an = \<lparr>im = im0, lw = line_width (self m1)\<rparr>"
  define ts where "ts = zip3 cl ti bx"
  have ex: "extract_tracks cs im0 m = (Inr (), m1)"
    using extract_tracks_ok [OF tr] by (simp add: m1_def)
  have tracks: "zip3 (clss (self m1)) (track_ids (self m1)) (boxes (self m1)) = ts"
    by (simp add: m1_def ts_def)
  obtain r2 m2 where lp: "mapping_loop cs an ts m1 = (r2, m2)"
    by (cases "mapping_loop cs an ts m1")
  note unf = mapping_unfold [OF ex, unfolded tracks, folded an_def, OF lp]
  from ret unf obtain u2 where r2: "r2 = Inr u2"
    by (cases r2) simp_all
  from ret unf r2 obtain u3 where d: "show_im cs (heap m2 im0) = Inr u3"
    by (cases "show_im cs (heap m2 im0)") simp_all
  have res: "mapping cs im0 m =
      (Inr \<lparr>plot_im = im0, total_tracks = length (track_ids (self m2)),
            res_verbose = verbose (self m2)\<rparr>, m2\<lparr>calls := calls m2 @ [DisplayOutput im0]\<rparr>)"
    using unf r2 d by simp
  have lp': "mapping_loop cs an ts m1 = (Inr u2, m2)"
    using lp r2 by simp
  have s2: "self m2 = self m1"
    using mapping_loop_self [of cs an ts m1] lp by simp
  have c2: "calls m2 = calls m1 @ concat (map (track_draws cs (self m1) (lw an)) ts)"
    using mapping_loop_ok_calls [OF lp'] .
  have h2: "heap m2 (im an) = fold (track_paint cs (self m1) (lw an)) ts (heap m1 (im an))"
    using mapping_loop_ok_heap [OF lp'] .
  have w: "lw an = line_width (self m)"
    by (simp add: an_def m1_def)
  have cfg: "names (self m1) = names (self m)" "vision_point (self m1) = vision_point (self m)"
    by (simp_all add: m1_def)
  have dr: "track_draws cs (self m1) (lw an) = track_draws cs (self m) (line_width (self m))"
    unfolding w by (rule ext) (rule track_draws_cong [OF cfg refl])
  have pt: "track_paint cs (self m1) (lw an) = track_paint cs (self m) (line_width (self m))"
    unfolding w by (intro ext) (rule track_paint_cong [OF cfg])
  show "new_calls cs im0 m =
           [ExtractTracks im0] @
           concat (map (track_draws cs (self m) (line_width (self m))) (zip3 cl ti bx)) @
           [DisplayOutput im0]"
    unfolding new_calls_def res using c2 dr by (simp add: ts_def m1_def)
  show "r = \<lparr>plot_im = im0, total_tracks = length ti, res_verbose = verbose (self m)\<rparr>"
    using ret unfolding res by (simp add: s2 m1_def)
  show "heap (snd (mapping cs im0 m)) im0 =
           fold (track_paint cs (self m) (line_width (self m))) (zip3 cl ti bx) (heap m im0)"
    unfolding res using h2 pt by (simp add: ts_def an_def m1_def)
  show "self (snd (mapping cs im0 m)) = (self m)\<lparr>clss := cl, track_ids := ti, boxes := bx\<rparr>"
    unfolding res by (simp add: s2 m1_def)
qed

lemma mapping_returns_tracker:
  assumes "fst (mapping cs im0 m) = Inr r"
  shows "\<exists>cl ti bx. track cs (heap m im0) = Inr (cl, ti, bx)"
proof (cases "track cs (heap m im0)")
  case (Inl e)
  then have "fst (mapping cs im0 m) = Inl e"
    by (simp add: mapping_def extract_tracks_def)
  with assms show ?thesis by simp
next
  case (Inr t)
  then show ?thesis by (cases t) auto
qed

lemma mapping_heap_other:
  assumes "a \<noteq> im0"
  shows "heap (snd (mapping cs im0 m)) a = heap m a"
proof -
  obtain r1 m1 where ex: "extract_tracks cs im0 m = (r1, m1)"
    by (cases "extract_tracks cs im0 m")
  have h1: "heap m1 = heap m"
    using extract_tracks_heap [of cs im0 m] ex by simp
  show ?thesis
  proof (cases r1)
    case (Inl e)
    with ex h1 show ?thesis by (simp add: mapping_def)
  next
    case (Inr u)
    define an where "an = \<lparr>im = im0, lw = line_width (self m1)\<rparr>"
    define ts where "ts = zip3 (clss (self m1)) (track_ids (self m1)) (boxes (self m1))"
    obtain r2 m2 where lp: "mapping_loop cs an ts m1 = (r2, m2)"
      by (cases "mapping_loop cs an ts m1")
    have "a \<noteq> im an"
      using assms by (simp add: an_def)
    then have "heap m2 a = heap m1 a"
      using mapping_loop_heap_other [of a an cs ts m1] lp by simp
    moreover have "heap (snd (mapping cs im0 m)) a = heap m2 a"
      using mapping_unfold [OF ex [unfolded Inr], folded an_def ts_def, OF lp]
      by (simp split: sum.splits)
    ultimately show ?thesis
      using h1 by simp
  qed
qed

section \<open>Determinism and aliasing\<close>

text \<open>
  Claim C2. Two \<^verbatim>\<open>mapping\<close> calls that return, made with the same tracker output, the
  same palette and name table, and the same vision point and line width, make the same
  sequence of drawing calls (boxes, labels, colours, vision point), whatever the frames,
  the other attributes and the earlier calls are.
\<close>

theorem mapping_deterministic_draws:
  assumes "track cs1 (heap m1 im1) = Inr (cl, ti, bx)"
    and "track cs2 (heap m2 im2) = Inr (cl, ti, bx)"
    and "colors cs1 = colors cs2"
    and "names (self m1) = names (self m2)"
    and "vision_point (self m1) = vision_point (self m2)"
    and "line_width (self m1) = line_width (self m2)"
    and "fst (mapping cs1 im1 m1) = Inr r1"
    and "fst (mapping cs2 im2 m2) = Inr r2"
  shows "filter (\<lambda>d. is_box_label d \<or> is_visioneye d) (new_calls cs1 im1 m1) =
         filter (\<lambda>d. is_box_label d \<or> is_visioneye d) (new_calls cs2 im2 m2)
       \<and> total_tracks r1 = total_tracks r2"
proof -
  let ?draws1 = "concat (map (track_draws cs1 (self m1) (line_width (self m1))) (zip3 cl ti bx))"
  let ?draws2 = "concat (map (track_draws cs2 (self m2) (line_width (self m2))) (zip3 cl ti bx))"
  note ok1 = mapping_ok [OF assms(7) assms(1)]
  note ok2 = mapping_ok [OF assms(8) assms(2)]
  have "track_draws cs1 (self m1) (line_width (self m1)) =
      track_draws cs2 (self m2) (line_width (self m2))"
    unfolding assms(6) by (rule ext) (rule track_draws_cong [OF assms(4) assms(5) assms(3)])
  then have same: "?draws1 = ?draws2"
    by (simp only:)
  have "filter (\<lambda>d. is_box_label d \<or> is_visioneye d) (new_calls cs1 im1 m1) = ?draws1"
    unfolding ok1(1) by (simp add: filter_track_draws)
  moreover have "filter (\<lambda>d. is_box_label d \<or> is_visioneye d) (new_calls cs2 im2 m2) = ?draws2"
    unfolding ok2(1) by (simp add: filter_track_draws)
  moreover have "total_tracks r1 = total_tracks r2"
    by (simp add: ok1(2) ok2(2))
  ultimately show ?thesis
    using same by simp
qed

theorem mapping_deterministic_draws_witness:
  "fst (mapping demo_cs 0 demo_machine) = Inr \<lparr>plot_im = 0, total_tracks = 2, res_verbose = True\<rparr>
   \<and> fst (mapping demo_cs 3
            (demo_machine\<lparr>self := (self demo_machine)\<lparr>verbose := False\<rparr>,
                          heap := (\<lambda>a. [DisplayOutput 9]), calls := [ExtractTracks 1]\<rparr>))
       = Inr \<lparr>plot_im = 3, total_tracks = 2, res_verbose = False\<rparr>
   \<and> filter (\<lambda>d. is_box_label d \<or> is_visioneye d) (new_calls demo_cs 0 demo_machine) =
       filter (\<lambda>d. is_box_label d \<or> is_visioneye d)
         (new_calls demo_cs 3
            (demo_machine\<lparr>self := (self demo_machine)\<lparr>verbose := False\<rparr>,
                          heap := (\<lambda>a. [DisplayOutput 9]), calls := [ExtractTracks 1]\<rparr>))
   \<and> filter (\<lambda>d. is_box_label d \<or> is_visioneye d) (new_calls demo_cs 0 demo_machine) =
       [BoxLabel 2 (10, 10, 50, 50) ''person'' (5, 0, 255), VisionEyeLink 2 (10, 10, 50, 50) (20, 20),
        BoxLabel 2 (60, 60, 90, 90) ''bicycle'' (7, 0, 255), VisionEyeLink 2 (60, 60, 90, 90) (20, 20)]"
  using mapping_deterministic_draws
    [where ?cs1.0 = demo_cs and ?cs2.0 = demo_cs and ?m1.0 = demo_machine and ?im1.0 = 0
      and ?im2.0 = 3
      and ?m2.0 = "demo_machine\<lparr>self := (self demo_machine)\<lparr>verbose := False\<rparr>,
                          heap := (\<lambda>a. [DisplayOutput 9]), calls := [ExtractTracks 1]\<rparr>"
      and cl = "[0, 1]" and ti = "[5, 7]" and bx = "[(10, 10, 50, 50), (60, 60, 90, 90)]"
      and ?r1.0 = "\<lparr>plot_im = 0, total_tracks = 2, res_verbose = True\<rparr>"
      and ?r2.0 = "\<lparr>plot_im = 3, total_tracks = 2, res_verbose = False\<rparr>"]
  by (simp add: new_calls_def mapping_def extract_tracks_def annotate_track_def box_label_def
      visioneye_def display_output_def zip3_def
      demo_cs_def demo_machine_def demo_base_def VisionEye_init_def)

text \<open>
  Claim C9. The frame of the result is the reference \<^verbatim>\<open>im0\<close> that was passed in. The
  buffer behind it holds the input buffer with the draws of every track applied in order,
  and no other buffer is written.
\<close>

theorem mapping_result_aliases_input:
  assumes "mapping cs im0 m = (Inr r, m')"
  shows "plot_im r = im0
       \<and> heap m' (plot_im r) =
           fold (track_paint cs (self m') (line_width (self m')))
             (zip3 (clss (self m')) (track_ids (self m')) (boxes (self m'))) (heap m im0)
       \<and> (\<forall>a. a \<noteq> im0 \<longrightarrow> heap m' a = heap m a)"
proof -
  have ret: "fst (mapping cs im0 m) = Inr r" and m': "m' = snd (mapping cs im0 m)"
    using assms by simp_all
  obtain cl ti bx where tr: "track cs (heap m im0) = Inr (cl, ti, bx)"
    using mapping_returns_tracker [OF ret] by blast
  note ok = mapping_ok [OF ret tr]
  have s': "self m' = (self m)\<lparr>clss := cl, track_ids := ti, boxes := bx\<rparr>"
    using ok(4) m' by simp
  have cfg: "names (self m') = names (self m)" "vision_point (self m') = vision_point (self m)"
    by (simp_all add: s')
  have w: "line_width (self m') = line_width (self m)"
    by (simp add: s')
  have pt: "track_paint cs (self m') (line_width (self m')) =
      track_paint cs (self m) (line_width (self m))"
    unfolding w by (intro ext) (rule track_paint_cong [OF cfg])
  have "plot_im r = im0"
    by (simp add: ok(2))
  moreover have "heap m' im0 =
      fold (track_paint cs (self m') (line_width (self m')))
        (zip3 (clss (self m')) (track_ids (self m')) (boxes (self m'))) (heap m im0)"
  proof -
    have "zip3 (clss (self m')) (track_ids (self m')) (boxes (self m')) = zip3 cl ti bx"
      by (simp add: s')
    moreover have "heap m' im0 =
        fold (track_paint cs (self m) (line_width (self m))) (zip3 cl ti bx) (heap m im0)"
      unfolding m' by (rule ok(3))
    ultimately show ?thesis
      unfolding pt by (simp only:)
  qed
  moreover have "\<forall>a. a \<noteq> im0 \<longrightarrow> heap m' a = heap m a"
    unfolding m' by (simp add: mapping_heap_other)
  ultimately show ?thesis by simp
qed

theorem mapping_result_aliases_input_witness:
  "fst (mapping demo_cs 0 demo_machine) = Inr \<lparr>plot_im = 0, total_tracks = 2, res_verbose = True\<rparr>
   \<and> heap demo_machine 0 = []
   \<and> heap (snd (mapping demo_cs 0 demo_machine)) 0 =
       [BoxLabel 2 (10, 10, 50, 50) ''person'' (5, 0, 255), VisionEyeLink 2 (10, 10, 50, 50) (20, 20),
        BoxLabel 2 (60, 60, 90, 90) ''bicycle'' (7, 0, 255), VisionEyeLink 2 (60, 60, 90, 90) (20, 20)]
   \<and> heap (snd (mapping demo_cs 0 demo_machine)) 1 = []"
  using mapping_result_aliases_input
    [where cs = demo_cs and ?im0.0 = 0 and m = demo_machine
      and r = "\<lparr>plot_im = 0, total_tracks = 2, res_verbose = True\<rparr>"
      and m' = "snd (mapping demo_cs 0 demo_machine)"]
  by (simp add: mapping_def extract_tracks_def annotate_track_def box_label_def
      visioneye_def display_output_def zip3_def
      demo_cs_def demo_machine_def demo_base_def VisionEye_init_def)

section \<open>Exceptions of the collaborators\<close>

lemma annotate_track_palette_raises:
  assumes "names (self m) cls = Some label" and "colors cs t_id True = Inl e"
  shows "annotate_track cs an (cls, t_id, box) m = (Inl e, m)"
  using assms by (simp add: annotate_track_def)

lemma annotate_track_box_label_raises:
  assumes "names (self m) cls = Some label" and "colors cs t_id True = Inr c"
    and "draw_box_label cs (lw an) (heap m (im an)) box label c = (Inl e, img)"
  shows "annotate_track cs an (cls, t_id, box) m =
     (Inl e, m\<lparr>heap := (heap m)(im an := img),
               calls := calls m @ [BoxLabel (lw an) box label c]\<rparr>)"
  using assms by (simp add: annotate_track_def box_label_def)

lemma annotate_track_visioneye_raises:
  assumes "names (self m) cls = Some label" and "colors cs t_id True = Inr c"
    and "draw_box_label cs (lw an) (heap m (im an)) box label c = (Inr u, img)"
    and "draw_visioneye cs (lw an) img box (vision_point (self m)) = (Inl e, img')"
  shows "annotate_track cs an (cls, t_id, box) m =
     (Inl e, m\<lparr>heap := (heap m)(im an := img'),
               calls := calls m @ [BoxLabel (lw an) box label c,
                                   VisionEyeLink (lw an) box (vision_point (self m))]\<rparr>)"
  using assms by (simp add: annotate_track_def box_label_def visioneye_def)

lemma mapping_tracker_raises:
  assumes "track cs (heap m im0) = Inl e"
  shows "mapping cs im0 m = (Inl e, m\<lparr>calls := calls m @ [ExtractTracks im0]\<rparr>)"
  using assms by (simp add: mapping_def extract_tracks_def)

lemma mapping_loop_raises:
  assumes ex: "extract_tracks cs im0 m = (Inr u, m1)"
    and ts: "zip3 (clss (self m1)) (track_ids (self m1)) (boxes (self m1)) = pre @ x # post"
    and pre: "mapping_loop cs \<lparr>im = im0, lw = line_width (self m1)\<rparr> pre m1 = (Inr u1, m2)"
    and x: "annotate_track cs \<lparr>im = im0, lw = line_width (self m1)\<rparr> x m2 = (Inl e, m3)"
  shows "mapping cs im0 m = (Inl e, m3)"
    and "heap m2 im0 = fold (track_paint cs (self m1) (line_width (self m1))) pre (heap m im0)"
proof -
  let ?an = "\<lparr>im = im0, lw = line_width (self m1)\<rparr>"
  have "mapping_loop cs ?an (pre @ x # post) m1 = mapping_loop cs ?an (x # post) m2"
    using mapping_loop_append [OF pre] .
  also have "\<dots> = (Inl e, m3)"
    using x by simp
  finally have lp: "mapping_loop cs ?an
      (zip3 (clss (self m1)) (track_ids (self m1)) (boxes (self m1))) m1 = (Inl e, m3)"
    using ts by simp
  show "mapping cs im0 m = (Inl e, m3)"
    using mapping_unfold [OF ex lp] by simp
  have "heap m1 = heap m"
    using extract_tracks_heap [of cs im0 m] ex by simp
  then show "heap m2 im0 = fold (track_paint cs (self m1) (line_width (self m1))) pre (heap m im0)"
    using mapping_loop_ok_heap [OF pre] by simp
qed

lemma mapping_display_raises:
  assumes ex: "extract_tracks cs im0 m = (Inr u, m1)"
    and lp: "mapping_loop cs \<lparr>im = im0, lw = line_width (self m1)\<rparr>
           (zip3 (clss (self m1)) (track_ids (self m1)) (boxes (self m1))) m1 = (Inr u1, m2)"
    and d: "show_im cs (heap m2 im0) = Inl e"
  shows "mapping cs im0 m = (Inl e, m2\<lparr>calls := calls m2 @ [DisplayOutput im0]\<rparr>)"
  using mapping_unfold [OF ex lp] d by simp

text \<open>
  Claim C6. An exception of a collaborator ends \<^verbatim>\<open>mapping\<close> with that same exception:
  one raised by the tracker, one raised in the loop body for a track after the tracks
  before it were drawn, or one raised by the display call. No result is returned, and the
  state is the one at the raise: the draws made before it are still in the buffer. Within
  the loop body, the palette's exception leaves the state as it is, and an exception of a
  drawing call leaves the buffer as that call left it.
\<close>

theorem mapping_raise_propagates:
  "(track cs (heap m im0) = Inl e \<longrightarrow>
      mapping cs im0 m = (Inl e, m\<lparr>calls := calls m @ [ExtractTracks im0]\<rparr>))
   \<and> (extract_tracks cs im0 m = (Inr u, m1)
      \<and> zip3 (clss (self m1)) (track_ids (self m1)) (boxes (self m1)) = pre @ x # post
      \<and> mapping_loop cs \<lparr>im = im0, lw = line_width (self m1)\<rparr> pre m1 = (Inr u1, m2)
      \<and> annotate_track cs \<lparr>im = im0, lw = line_width (self m1)\<rparr> x m2 = (Inl e, m3) \<longrightarrow>
        mapping cs im0 m = (Inl e, m3)
        \<and> heap m2 im0 = fold (track_paint cs (self m1) (line_width (self m1))) pre (heap m im0))
   \<and> (extract_tracks cs im0 m = (Inr u, m1)
      \<and> mapping_loop cs \<lparr>im = im0, lw = line_width (self m1)\<rparr>
          (zip3 (clss (self m1)) (track_ids (self m1)) (boxes (self m1))) m1 = (Inr u1, m2)
      \<and> show_im cs (heap m2 im0) = Inl e \<longrightarrow>
        mapping cs im0 m = (Inl e, m2\<lparr>calls := calls m2 @ [DisplayOutput im0]\<rparr>))
   \<and> (names (self m) cls = Some label \<and> colors cs t_id True = Inl e \<longrightarrow>
        annotate_track cs an (cls, t_id, box) m = (Inl e, m))
   \<and> (names (self m) cls = Some label \<and> colors cs t_id True = Inr c
      \<and> draw_box_label cs (lw an) (heap m (im an)) box label c = (Inl e, img) \<longrightarrow>
        annotate_track cs an (cls, t_id, box) m =
          (Inl e, m\<lparr>heap := (heap m)(im an := img),
                    calls := calls m @ [BoxLabel (lw an) box label c]\<rparr>))
   \<and> (names (self m) cls = Some label \<and> colors cs t_id True = Inr c
      \<and> draw_box_label cs (lw an) (heap m (im an)) box label c = (Inr u, img)
      \<and> draw_visioneye cs (lw an) img box (vision_point (self m)) = (Inl e, img') \<longrightarrow>
        annotate_track cs an (cls, t_id, box) m =
          (Inl e, m\<lparr>heap := (heap m)(im an := img'),
                    calls := calls m @ [BoxLabel (lw an) box label c,
                                        VisionEyeLink (lw an) box (vision_point (self m))]\<rparr>))"
proof (intro conjI impI)
  show "mapping cs im0 m = (Inl e, m\<lparr>calls := calls m @ [ExtractTracks im0]\<rparr>)"
    if "track cs (heap m im0) = Inl e"
    using that by (rule mapping_tracker_raises)
next
  assume h: "extract_tracks cs im0 m = (Inr u, m1)
      \<and> zip3 (clss (self m1)) (track_ids (self m1)) (boxes (self m1)) = pre @ x # post
      \<and> mapping_loop cs \<lparr>im = im0, lw = line_width (self m1)\<rparr> pre m1 = (Inr u1, m2)
      \<and> annotate_track cs \<lparr>im = im0, lw = line_width (self m1)\<rparr> x m2 = (Inl e, m3)"
  then show "mapping cs im0 m = (Inl e, m3)"
    by (elim conjE) (rule mapping_loop_raises(1); assumption)
  from h show "heap m2 im0 =
      fold (track_paint cs (self m1) (line_width (self m1))) pre (heap m im0)"
    by (elim conjE) (rule mapping_loop_raises(2); assumption)
next
  assume "extract_tracks cs im0 m = (Inr u, m1)
      \<and> mapping_loop cs \<lparr>im = im0, lw = line_width (self m1)\<rparr>
          (zip3 (clss (self m1)) (track_ids (self m1)) (boxes (self m1))) m1 = (Inr u1, m2)
      \<and> show_im cs (heap m2 im0) = Inl e"
  then show "mapping cs im0 m = (Inl e, m2\<lparr>calls := calls m2 @ [DisplayOutput im0]\<rparr>)"
    by (elim conjE) (rule mapping_display_raises; assumption)
next
  assume "names (self m) cls = Some label \<and> colors cs t_id True = Inl e"
  then show "annotate_track cs an (cls, t_id, box) m = (Inl e, m)"
    by (elim conjE) (rule annotate_track_palette_raises; assumption)
next
  assume "names (self m) cls = Some label \<and> colors cs t_id True = Inr c
      \<and> draw_box_label cs (lw an) (heap m (im an)) box label c = (Inl e, img)"
  then show "annotate_track cs an (cls, t_id, box) m =
          (Inl e, m\<lparr>heap := (heap m)(im an := img),
                    calls := calls m @ [BoxLabel (lw an) box label c]\<rparr>)"
    by (elim conjE) (rule annotate_track_box_label_raises; assumption)
next
  assume "names (self m) cls = Some label \<and> colors cs t_id True = Inr c
      \<and> draw_box_label cs (lw an) (heap m (im an)) box label c = (Inr u, img)
      \<and> draw_visioneye cs (lw an) img box (vision_point (self m)) = (Inl e, img')"
  then show "annotate_track cs an (cls, t_id, box) m =
          (Inl e, m\<lparr>heap := (heap m)(im an := img'),
                    calls := calls m @ [BoxLabel (lw an) box label c,
                                        VisionEyeLink (lw an) box (vision_point (self m))]\<rparr>)"
    by (elim conjE) (rule annotate_track_visioneye_raises; assumption)
qed

theorem mapping_raise_propagates_witness:
  "mapping demo_cs_tracker_raises 0 demo_machine =
     (Inl (Raised ''tracker''), demo_machine\<lparr>calls := [ExtractTracks 0]\<rparr>)
   \<and> fst (mapping demo_cs_canvas_raises 0 demo_machine) = Inl (Raised ''canvas'')
   \<and> heap (snd (mapping demo_cs_canvas_raises 0 demo_machine)) 0 =
       [BoxLabel 2 (10, 10, 50, 50) ''person'' (5, 0, 255), VisionEyeLink 2 (10, 10, 50, 50) (20, 20),
        BoxLabel 2 (60, 60, 90, 90) ''bicycle'' (7, 0, 255)]
   \<and> calls (snd (mapping demo_cs_canvas_raises 0 demo_machine)) =
       [ExtractTracks 0,
        BoxLabel 2 (10, 10, 50, 50) ''person'' (5, 0, 255), VisionEyeLink 2 (10, 10, 50, 50) (20, 20),
        BoxLabel 2 (60, 60, 90, 90) ''bicycle'' (7, 0, 255), VisionEyeLink 2 (60, 60, 90, 90) (20, 20)]
   \<and> fst (mapping demo_cs_display_raises 0 demo_machine) = Inl (Raised ''display'')
   \<and> heap (snd (mapping demo_cs_display_raises 0 demo_machine)) 0 =
       [BoxLabel 2 (10, 10, 50, 50) ''person'' (5, 0, 255), VisionEyeLink 2 (10, 10, 50, 50) (20, 20),
        BoxLabel 2 (60, 60, 90, 90) ''bicycle'' (7, 0, 255), VisionEyeLink 2 (60, 60, 90, 90) (20, 20)]"
  using
    mapping_raise_propagates
      [where cs = demo_cs_tracker_raises and m = demo_machine and ?im0.0 = 0
        and e = "Raised ''tracker''", THEN conjunct1]
    mapping_raise_propagates
      [where cs = demo_cs_canvas_raises and m = demo_machine and ?im0.0 = 0
        and e = "Raised ''canvas''" and u = "()" and ?u1.0 = "()"
        and ?m1.0 = "snd (extract_tracks demo_cs_canvas_raises 0 demo_machine)"
        and pre = "[(0, 5, (10, 10, 50, 50))]" and x = "(1, 7, (60, 60, 90, 90))" and post = "[]"
        and ?m2.0 = "snd (mapping_loop demo_cs_canvas_raises \<lparr>im = 0, lw = 2\<rparr>
                            [(0, 5, (10, 10, 50, 50))]
                            (snd (extract_tracks demo_cs_canvas_raises 0 demo_machine)))"
        and ?m3.0 = "snd (mapping demo_cs_canvas_raises 0 demo_machine)",
        THEN conjunct2, THEN conjunct1]
    mapping_raise_propagates
      [where cs = demo_cs_display_raises and m = demo_machine and ?im0.0 = 0
        and e = "Raised ''display''" and u = "()" and ?u1.0 = "()"
        and ?m1.0 = "snd (extract_tracks demo_cs_display_raises 0 demo_machine)"
        and ?m2.0 = "snd (mapping_loop demo_cs_display_raises \<lparr>im = 0, lw = 2\<rparr>
                            [(0, 5, (10, 10, 50, 50)), (1, 7, (60, 60, 90, 90))]
                            (snd (extract_tracks demo_cs_display_raises 0 demo_machine)))",
        THEN conjunct2, THEN conjunct2, THEN conjunct1]
  by (simp add: mapping_def extract_tracks_def annotate_track_def box_label_def
      visioneye_def display_output_def zip3_def
      demo_cs_tracker_raises_def demo_cs_canvas_raises_def demo_cs_display_raises_def
      demo_cs_def demo_machine_def demo_base_def VisionEye_init_def)

end
